theory Spec2Isabelle
  imports Main "HOL-Library.Sublist"
begin

section \<open>The grabid backend (grabid-backend/main.go)\<close>

text \<open>
  A shallow embedding of the request pipeline of \<^verbatim>\<open>main.go\<close>: the admission
  middleware, the per-IP rate limiter with its sweep, the concurrency gate, and the
  probe and stream handlers with the capped relay. Go strings are byte strings and are
  modelled as \<^typ>\<open>string\<close>; \<^verbatim>\<open>int64\<close> values are only compared and
  decremented within their range and are modelled as \<^typ>\<open>int\<close>.
\<close>

subsection \<open>HTTP headers and the response writer (package net/http)\<close>

text \<open>
  \<^verbatim>\<open>http.Header\<close> and \<^verbatim>\<open>url.Values\<close> are \<^verbatim>\<open>map[string][]string\<close>.
  \<^verbatim>\<open>Get\<close> returns the first value stored under the key, or the empty string
  when there is none, so an absent header and an empty one read the same. The keys the
  program uses are already in canonical form.
\<close>

type_synonym Header = "string \<rightharpoonup> string list"

definition Header_Get :: "Header \<Rightarrow> string \<Rightarrow> string" where
  "Header_Get h key = (case h key of None \<Rightarrow> [] | Some [] \<Rightarrow> [] | Some (v # _) \<Rightarrow> v)"

definition Header_Set :: "Header \<Rightarrow> string \<Rightarrow> string \<Rightarrow> Header" where
  "Header_Set h key v = h(key \<mapsto> [v])"

definition Header_Del :: "Header \<Rightarrow> string \<Rightarrow> Header" where
  "Header_Del h key = h(key := None)"

text \<open>
  The inbound request: the fields of \<^verbatim>\<open>*http.Request\<close> the handlers read.
  \<open>Query\<close> is \<^verbatim>\<open>r.URL.Query()\<close>.
\<close>

record Request =
  Method :: string
  Query :: Header
  ReqHeader :: Header
  RemoteAddr :: string

text \<open>
  \<^verbatim>\<open>http.ResponseWriter\<close> is an interface. The model is a recorder: the header
  map, the status once it is written, and the body bytes written so far. \<open>room\<close>
  models the client's connection: \<open>None\<close> accepts every write, \<open>Some k\<close> accepts
  \<open>k\<close> more bytes and then fails the write (a client that disconnects).
\<close>

record ResponseWriter =
  header :: Header
  status :: "nat option"
  body :: string
  room :: "nat option"

definition WriteHeader :: "ResponseWriter \<Rightarrow> nat \<Rightarrow> ResponseWriter" where
  \<comment> \<open>a second call is superfluous and ignored\<close>
  "WriteHeader w code = (case status w of None \<Rightarrow> w\<lparr>status := Some code\<rparr> | Some _ \<Rightarrow> w)"

definition Write :: "ResponseWriter \<Rightarrow> string \<Rightarrow> ResponseWriter \<times> bool" where
  \<comment> \<open>the first write commits status 200 when none was set; the flag is the write error\<close>
  "Write w p =
     (let w1 = WriteHeader w 200 in
      case room w1 of
        None \<Rightarrow> (w1\<lparr>body := body w1 @ p\<rparr>, False)
      | Some k \<Rightarrow>
          if length p \<le> k then (w1\<lparr>body := body w1 @ p, room := Some (k - length p)\<rparr>, False)
          else (w1\<lparr>body := body w1 @ take k p, room := Some 0\<rparr>, True))"

definition http_Error :: "ResponseWriter \<Rightarrow> string \<Rightarrow> nat \<Rightarrow> ResponseWriter" where
  \<comment> \<open>\<^verbatim>\<open>http.Error\<close> of net/http: it drops a stale \<^verbatim>\<open>Content-Length\<close>, sets the
     plain-text headers, writes the status, then the message and a newline\<close>
  "http_Error w error code =
     (let h1 = Header_Del (header w) ''Content-Length'';
          h2 = Header_Set h1 ''Content-Type'' ''text/plain; charset=utf-8'';
          h3 = Header_Set h2 ''X-Content-Type-Options'' ''nosniff'';
          w1 = WriteHeader (w\<lparr>header := h3\<rparr>) code
      in fst (Write w1 (error @ [CHR 0x0A])))"

text \<open>
  A handler (\<^verbatim>\<open>http.HandlerFunc\<close>) writes to the response writer and may change
  the state it closes over (the limiter table, the semaphore), here \<open>'s\<close>.
\<close>

type_synonym 's HandlerFunc = "ResponseWriter \<Rightarrow> Request \<Rightarrow> 's \<Rightarrow> ResponseWriter \<times> 's"

subsection \<open>AuthMiddleware\<close>

definition AuthMiddleware :: "'s HandlerFunc \<Rightarrow> string \<Rightarrow> 's HandlerFunc" where
  "AuthMiddleware next secret w r s =
     (if secret = [] then next w r s
      else
        let token = Header_Get (ReqHeader r) ''X-Grab-Token'' in
        if token \<noteq> secret then (http_Error w ''Unauthorized'' 401, s)
        else next w r s)"

subsection \<open>Strings (packages strings, fmt and net)\<close>

definition Contains :: "string \<Rightarrow> char \<Rightarrow> bool" where
  \<comment> \<open>\<^verbatim>\<open>strings.Contains\<close> for a one-byte substring\<close>
  "Contains s c = (c \<in> set s)"

fun IndexByte :: "string \<Rightarrow> char \<Rightarrow> nat option" where
  \<comment> \<open>the index of the first \<open>c\<close>; Go's \<open>-1\<close> is \<open>None\<close>\<close>
  "IndexByte [] c = None"
| "IndexByte (x # xs) c = (if x = c then Some 0 else map_option Suc (IndexByte xs c))"

fun LastIndexByte :: "string \<Rightarrow> char \<Rightarrow> nat option" where
  \<comment> \<open>the index of the last \<open>c\<close>\<close>
  "LastIndexByte [] c = None"
| "LastIndexByte (x # xs) c =
     (case LastIndexByte xs c of
        Some i \<Rightarrow> Some (Suc i)
      | None \<Rightarrow> if x = c then Some 0 else None)"

fun Split :: "string \<Rightarrow> char \<Rightarrow> string list" where
  \<comment> \<open>\<^verbatim>\<open>strings.Split\<close> with a one-byte separator: never an empty slice\<close>
  "Split [] c = [[]]"
| "Split (x # xs) c =
     (if x = c then [] # Split xs c
      else case Split xs c of p # ps \<Rightarrow> (x # p) # ps | [] \<Rightarrow> [[x]])"

fun decimal :: "nat \<Rightarrow> string" where
  "decimal n =
     (if n < 10 then [''0123456789'' ! n]
      else decimal (n div 10) @ [''0123456789'' ! (n mod 10)])"

declare decimal.simps [simp del]

definition Sprintf_d :: "int \<Rightarrow> string" where
  \<comment> \<open>\<^verbatim>\<open>fmt.Sprintf("%d", i)\<close>\<close>
  "Sprintf_d i = (if i < 0 then CHR ''-'' # decimal (nat (- i)) else decimal (nat i))"

definition decimal_value :: "string \<Rightarrow> nat" where
  \<comment> \<open>the number a string of decimal digits denotes\<close>
  "decimal_value s = foldl (\<lambda>a c. 10 * a + (of_char c - 48)) 0 s"

text \<open>
  \<^verbatim>\<open>net.SplitHostPort\<close> of the Go standard library, branch by branch: the port
  starts after the last colon; a host in brackets ends at the first closing bracket,
  which must stand just before that colon; a host without brackets has no colon; no
  other bracket may occur.
\<close>

datatype AddrError =
  MissingPort | TooManyColons | MissingBracket | UnexpectedOpen | UnexpectedClose

definition SplitHostPort :: "string \<Rightarrow> AddrError + string \<times> string" where
  "SplitHostPort hostport =
     (case LastIndexByte hostport CHR '':'' of
        None \<Rightarrow> Inl MissingPort
      | Some i \<Rightarrow>
          let rest = (\<lambda>host j k.
                if IndexByte (drop j hostport) CHR ''['' \<noteq> None then Inl UnexpectedOpen
                else if IndexByte (drop k hostport) CHR '']'' \<noteq> None then Inl UnexpectedClose
                else Inr (host, drop (i + 1) hostport))
          in
          if take 1 hostport = ''[''
          then (case IndexByte hostport CHR '']'' of
                  None \<Rightarrow> Inl MissingBracket
                | Some e \<Rightarrow>
                    if e + 1 = length hostport then Inl MissingPort
                    else if e + 1 = i then rest (drop 1 (take e hostport)) 1 (e + 1)
                    else if hostport ! (e + 1) = CHR '':'' then Inl TooManyColons
                    else Inl MissingPort)
          else
            let host = take i hostport in
            if IndexByte host CHR '':'' \<noteq> None then Inl TooManyColons
            else rest host 0 0)"

subsection \<open>IPRateLimiter\<close>

text \<open>
  The token bucket is \<^verbatim>\<open>golang.org/x/time/rate\<close>, not part of this program: its
  limiter state is the type parameter \<open>'l\<close>, and its two operations are taken as
  given. \<^verbatim>\<open>Allow\<close> reads the clock itself and updates the limiter in place.
  Times are nanoseconds on the monotonic clock.
\<close>

record 'l RateLib =
  NewLimiter :: "int \<Rightarrow> int \<Rightarrow> 'l"
  Allow :: "'l \<Rightarrow> bool \<times> 'l"

record 'l clientLimiter =
  limiter :: 'l
  lastSeen :: int

text \<open>The mutex serialises the operations; each is one atomic step on the table.\<close>

record 'l IPRateLimiter =
  ips :: "string \<rightharpoonup> 'l clientLimiter"
  limit :: int
  burst :: int

definition Minute :: int where
  "Minute = 60 * 1000000000"

definition GetLimiter ::
  "'l RateLib \<Rightarrow> int \<Rightarrow> 'l IPRateLimiter \<Rightarrow> string \<Rightarrow> 'l \<times> 'l IPRateLimiter" where
  \<comment> \<open>\<open>now\<close> is the reading of \<^verbatim>\<open>time.Now()\<close>; a new entry starts at the zero time\<close>
  "GetLimiter lib now i ip =
     (let l = (case ips i ip of
                 None \<Rightarrow> \<lparr>limiter = NewLimiter lib (limit i) (burst i), lastSeen = 0\<rparr>
               | Some l \<Rightarrow> l);
          l' = l\<lparr>lastSeen := now\<rparr>
      in (limiter l', i\<lparr>ips := (ips i)(ip \<mapsto> l')\<rparr>))"

text \<open>
  \<^verbatim>\<open>Cleanup\<close> ranges over the table and reads the clock once per entry. The
  argument lists the keys in the order the runtime visits them, each with the clock
  reading of its \<^verbatim>\<open>time.Since\<close> call. Deleting during the range is safe in Go;
  a key that is gone is not visited.
\<close>

fun Cleanup_range ::
  "(string \<times> int) list \<Rightarrow> (string \<rightharpoonup> 'l clientLimiter) \<Rightarrow> (string \<rightharpoonup> 'l clientLimiter)" where
  "Cleanup_range [] m = m"
| "Cleanup_range ((ip, now) # visits) m =
     (case m ip of
        None \<Rightarrow> Cleanup_range visits m
      | Some l \<Rightarrow>
          if now - lastSeen l > 3 * Minute then Cleanup_range visits (m(ip := None))
          else Cleanup_range visits m)"

definition Cleanup :: "(string \<times> int) list \<Rightarrow> 'l IPRateLimiter \<Rightarrow> 'l IPRateLimiter" where
  "Cleanup visits i = i\<lparr>ips := Cleanup_range visits (ips i)\<rparr>"

subsection \<open>RateLimitMiddleware\<close>

definition clientIP :: "Request \<Rightarrow> string" where
  \<comment> \<open>the first lines of the middleware: the key of the limiter\<close>
  "clientIP r =
     (let ip = RemoteAddr r;
          forwarded = Header_Get (ReqHeader r) ''X-Forwarded-For'';
          ip = (if forwarded \<noteq> [] then forwarded else ip)
      in if Contains ip CHR '':''
         then (case SplitHostPort ip of Inr (host, _) \<Rightarrow> host | Inl _ \<Rightarrow> ip)
         else ip)"

definition RateLimitMiddleware ::
  "'l RateLib \<Rightarrow> int \<Rightarrow> 's HandlerFunc \<Rightarrow> ('l IPRateLimiter \<times> 's) HandlerFunc" where
  \<comment> \<open>the limiter table is the state the closure holds a pointer to\<close>
  "RateLimitMiddleware lib now next w r st =
     (case st of (i, s) \<Rightarrow>
        let ip = clientIP r;
            (lim, i1) = GetLimiter lib now i ip;
            (ok, lim') = Allow lib lim;
            i2 = i1\<lparr>ips := (ips i1)(ip := map_option (\<lambda>l. l\<lparr>limiter := lim'\<rparr>) (ips i1 ip))\<rparr>
        in if \<not> ok then (http_Error w ''Too Many Requests'' 429, (i2, s))
           else (case next w r s of (w', s') \<Rightarrow> (w', (i2, s'))))"

subsection \<open>The upstream response and the capped copy (packages net/http and io)\<close>

text \<open>
  The upstream body is a reader. It delivers its bytes in chunks (what one
  \<^verbatim>\<open>Read\<close> can return at most) and then ends, with \<^verbatim>\<open>io.EOF\<close> or, when
  \<open>broken\<close>, with a transport error. The declared length of a response does not
  constrain the body here: the upstream may send more or less than it declares.
\<close>

datatype io_error = EOF | ErrUnexpectedEOF | ErrWrite

record Body =
  chunks :: "string list"
  broken :: bool

definition Body_Read :: "nat \<Rightarrow> Body \<Rightarrow> string \<times> io_error option \<times> Body" where
  \<comment> \<open>\<^verbatim>\<open>Read(p)\<close> with \<open>len(p) = k\<close>: the bytes read, the error, the reader after\<close>
  "Body_Read k b =
     (case chunks b of
        [] \<Rightarrow> ([], Some (if broken b then ErrUnexpectedEOF else EOF), b)
      | c # cs \<Rightarrow>
          if length c \<le> k then (c, None, b\<lparr>chunks := cs\<rparr>)
          else (take k c, None, b\<lparr>chunks := drop k c # cs\<rparr>))"

record Response =
  StatusCode :: int
  ContentLength :: int
  RespHeader :: Header
  RespBody :: Body

record LimitedReader =
  R :: Body
  N :: int

definition LimitReader :: "Body \<Rightarrow> int \<Rightarrow> LimitedReader" where
  "LimitReader r n = \<lparr>R = r, N = n\<rparr>"

definition LimitedReader_Read ::
  "nat \<Rightarrow> LimitedReader \<Rightarrow> string \<times> io_error option \<times> LimitedReader" where
  "LimitedReader_Read k l =
     (if N l \<le> 0 then ([], Some EOF, l)
      else
        let k' = (if int k > N l then nat (N l) else k) in
        case Body_Read k' (R l) of
          (p, err, r') \<Rightarrow> (p, err, \<lparr>R = r', N = N l - int (length p)\<rparr>))"

definition Body_size :: "Body \<Rightarrow> nat" where
  \<comment> \<open>what is left to read: the measure of the copy loop\<close>
  "Body_size b = sum_list (map length (chunks b)) + length (chunks b)"

text \<open>
  The loop of \<^verbatim>\<open>io.Copy\<close> with a buffer of \<open>k\<close> bytes: read, write what was
  read, stop at a write error, then at a read error (\<^verbatim>\<open>io.EOF\<close> is the normal
  end and is not reported). \<^verbatim>\<open>io.Copy\<close> never allocates an empty buffer. A
  writer that brings its own \<^verbatim>\<open>ReadFrom\<close> runs the same loop on the same
  limited reader: it can only write what that reader returns.
\<close>

function Copy_loop ::
  "nat \<Rightarrow> ResponseWriter \<Rightarrow> LimitedReader \<Rightarrow> ResponseWriter \<times> io_error option" where
  "Copy_loop k w l =
     (if k = 0 then (w, None)
      else
        case LimitedReader_Read k l of
          (p, er, l') \<Rightarrow>
            (case (if p \<noteq> [] then Write w p else (w, False)) of
               (w', ew) \<Rightarrow>
                 if ew then (w', Some ErrWrite)
                 else (case er of
                         Some e \<Rightarrow> (w', if e = EOF then None else Some e)
                       | None \<Rightarrow> Copy_loop k w' l')))"
  by pat_completeness auto
termination
proof (relation "measure (\<lambda>(k, w, l). Body_size (R l))", goal_cases)
  case 1
  show ?case by simp
next
  case (2 k w l p y er l' w' ew)
  then have rd: "LimitedReader_Read k l = (p, None, l')"
    by simp
  then obtain r' where pos: "N l > 0" and l': "R l' = r'"
    and br: "Body_Read (if int k > N l then nat (N l) else k) (R l) = (p, None, r')"
    by (auto simp: LimitedReader_Read_def Let_def split: if_splits prod.splits)
  from br pos \<open>k \<noteq> 0\<close> have "Body_size r' < Body_size (R l)"
    by (auto simp: Body_Read_def Body_size_def split: list.splits if_splits)
  with l' show ?case by simp
qed

declare Copy_loop.simps [simp del]

definition Copy :: "ResponseWriter \<Rightarrow> LimitedReader \<Rightarrow> ResponseWriter \<times> io_error option" where
  \<comment> \<open>\<^verbatim>\<open>io.Copy\<close>: a 32 KiB buffer, smaller when the limit is, never empty\<close>
  "Copy w l =
     (let size = (if (32 * 1024 :: int) > N l then (if N l < 1 then 1 else nat (N l))
                  else 32 * 1024)
      in Copy_loop size w l)"

subsection \<open>The world outside: URL parsing, the HTTP client, the JSON encoder\<close>

record Client =
  Timeout :: int

record ProbeResponse =
  Size :: int
  Type :: string

text \<open>
  What the handlers call outside the program: whether \<^verbatim>\<open>http.NewRequest\<close>
  rejects a method and URL, what \<^verbatim>\<open>client.Do\<close> returns for a request (the
  error's text, or the upstream response), and the bytes the JSON encoder writes.
\<close>

record World =
  NewRequest_err :: "string \<Rightarrow> string \<Rightarrow> bool"
  Do :: "Client \<Rightarrow> string \<Rightarrow> string \<Rightarrow> string + Response"
  Encode :: "ProbeResponse \<Rightarrow> string"

definition Second :: int where
  "Second = 1000000000"

subsection \<open>Config and the concurrency semaphore\<close>

text \<open>
  \<^verbatim>\<open>RateLimit\<close> is a \<^verbatim>\<open>rate.Limit\<close>, a float that \<^verbatim>\<open>ParseRateLimit\<close>
  only ever fills from an integer.
\<close>

record Config =
  Port :: string
  GrabSecret :: string
  MaxSize :: int
  MaxSizeStr :: string
  MaxConcurrent :: int
  RateLimit :: int
  RateBurst :: int

text \<open>
  \<^verbatim>\<open>sem\<close> is a buffered channel of empty structs: only the number of elements it
  holds matters. \<open>events\<close> is a history of the sends and receives, kept to state
  what happened between two states.
\<close>

datatype sem_event = Acquired | Released

record Sem =
  capacity :: nat
  held :: nat
  events :: "sem_event list"

definition try_send :: "Sem \<Rightarrow> Sem option" where
  \<comment> \<open>\<^verbatim>\<open>select { case sem <- struct{}{}: ... default: ... }\<close>: never blocks\<close>
  "try_send sem =
     (if held sem < capacity sem
      then Some (sem\<lparr>held := held sem + 1, events := events sem @ [Acquired]\<rparr>)
      else None)"

definition recv :: "Sem \<Rightarrow> Sem" where
  \<comment> \<open>\<^verbatim>\<open><-sem\<close>, the deferred release\<close>
  "recv sem = sem\<lparr>held := held sem - 1, events := events sem @ [Released]\<rparr>"

subsection \<open>handleProbe\<close>

definition handleProbe :: "World \<Rightarrow> ResponseWriter \<Rightarrow> Request \<Rightarrow> ResponseWriter" where
  "handleProbe W w r =
     (if Method r \<noteq> ''HEAD'' \<and> Method r \<noteq> ''GET''
      then http_Error w ''Method not allowed'' 405
      else
        let urlParam = Header_Get (Query r) ''url'' in
        if urlParam = [] then http_Error w ''Missing url parameter'' 400
        else if NewRequest_err W ''HEAD'' urlParam then http_Error w ''Invalid URL'' 400
        else
          let client = \<lparr>Timeout = 10 * Second\<rparr> in
          case Do W client ''HEAD'' urlParam of
            Inl err \<Rightarrow> http_Error w (''Failed to reach source: '' @ err) 502
          | Inr resp \<Rightarrow>
              if StatusCode resp \<ge> 400
              then http_Error w (''Source returned error: '' @ Sprintf_d (StatusCode resp)) 502
              else
                let probeResp = \<lparr>Size = ContentLength resp,
                                 Type = Header_Get (RespHeader resp) ''Content-Type''\<rparr>;
                    w1 = w\<lparr>header := Header_Set (header w) ''Content-Type'' ''application/json''\<rparr>
                in fst (Write w1 (Encode W probeResp)))"

subsection \<open>handleStream\<close>

definition stream_with_slot ::
  "World \<Rightarrow> ResponseWriter \<Rightarrow> Request \<Rightarrow> Config \<Rightarrow> ResponseWriter" where
  \<comment> \<open>the handler from the url check on: what runs while the slot is held\<close>
  "stream_with_slot W w r cfg =
     (let urlParam = Header_Get (Query r) ''url'' in
      if urlParam = [] then http_Error w ''Missing url parameter'' 400
      else if NewRequest_err W ''GET'' urlParam then http_Error w ''Invalid URL'' 400
      else
        let client = \<lparr>Timeout = 0\<rparr> in
        case Do W client ''GET'' urlParam of
          Inl err \<Rightarrow> http_Error w (''Failed to reach source: '' @ err) 502
        | Inr resp \<Rightarrow>
            if StatusCode resp \<ge> 400
            then http_Error w (''Source returned error: '' @ Sprintf_d (StatusCode resp)) 502
            else if ContentLength resp > MaxSize cfg
            then http_Error w ''Payload Too Large'' 413
            else
              let w1 = (if ContentLength resp > 0
                        then w\<lparr>header := Header_Set (header w) ''Content-Length''
                                            (Sprintf_d (ContentLength resp))\<rparr>
                        else w);
                  contentType = Header_Get (RespHeader resp) ''Content-Type'';
                  w2 = (if contentType \<noteq> []
                        then w1\<lparr>header := Header_Set (header w1) ''Content-Type'' contentType\<rparr>
                        else w1);
                  contentDisposition = Header_Get (RespHeader resp) ''Content-Disposition'';
                  w3 = (if contentDisposition \<noteq> []
                        then w2\<lparr>header := Header_Set (header w2) ''Content-Disposition''
                                             contentDisposition\<rparr>
                        else
                          let parts = Split urlParam CHR ''/'' in
                          if length parts > 0
                          then
                            let filename = parts ! (length parts - 1) in
                            if filename \<noteq> []
                            then w2\<lparr>header := Header_Set (header w2) ''Content-Disposition''
                                     (''attachment; filename='' @ [CHR 0x22] @ filename @ [CHR 0x22])\<rparr>
                            else w2
                          else w2);
                  limitedBody = LimitReader (RespBody resp) (MaxSize cfg)
              in fst (Copy w3 limitedBody))"

definition handleStream ::
  "World \<Rightarrow> ResponseWriter \<Rightarrow> Request \<Rightarrow> Config \<Rightarrow> Sem \<Rightarrow> ResponseWriter \<times> Sem" where
  "handleStream W w r cfg sem =
     (if Method r \<noteq> ''GET'' then (http_Error w ''Method not allowed'' 405, sem)
      else
        case try_send sem of
          Some sem1 \<Rightarrow> (stream_with_slot W w r cfg, recv sem1)
        | None \<Rightarrow> (http_Error w ''Service Unavailable'' 503, sem))"

definition NewRecorder :: ResponseWriter where
  \<comment> \<open>a fresh response writer, as each request gets, on a connection that stays open\<close>
  "NewRecorder = \<lparr>header = Map.empty, status = None, body = [], room = None\<rparr>"

subsection \<open>Segments of a URL\<close>

definition after_last :: "char \<Rightarrow> string \<Rightarrow> string" where
  \<comment> \<open>what follows the last \<open>c\<close> in \<open>s\<close>; all of \<open>s\<close> when it has none\<close>
  "after_last c s = rev (takeWhile (\<lambda>x. x \<noteq> c) (rev s))"


subsection \<open>Example inputs\<close>

definition stream_request :: "string \<Rightarrow> string \<Rightarrow> Request" where
  \<comment> \<open>a request with the given method and \<open>url\<close> parameter\<close>
  "stream_request m u =
     \<lparr>Method = m, Query = [''url'' \<mapsto> [u]], ReqHeader = Map.empty,
      RemoteAddr = ''10.0.0.1:5000''\<rparr>"

definition upstream :: "string + Response \<Rightarrow> World" where
  \<comment> \<open>a world where every URL parses and every request has the given outcome\<close>
  "upstream res =
     \<lparr>NewRequest_err = (\<lambda>m u. False), Do = (\<lambda>c m u. res),
      Encode = (\<lambda>p. Sprintf_d (Size p) @ '' '' @ Type p)\<rparr>"

definition example_response :: "int \<Rightarrow> int \<Rightarrow> Response" where
  \<comment> \<open>an upstream response of six body bytes with the given status and declared length\<close>
  "example_response code len =
     \<lparr>StatusCode = code, ContentLength = len,
      RespHeader = [''Content-Type'' \<mapsto> [''text/plain'']],
      RespBody = \<lparr>chunks = [''ab'', ''cde'', ''f''], broken = False\<rparr>\<rparr>"

definition empty_response :: Response where
  \<comment> \<open>an upstream response that declares, and sends, an empty body\<close>
  "empty_response =
     \<lparr>StatusCode = 200, ContentLength = 0,
      RespHeader = [''Content-Type'' \<mapsto> [''text/plain'']],
      RespBody = \<lparr>chunks = [], broken = False\<rparr>\<rparr>"

definition config :: "int \<Rightarrow> Config" where
  \<comment> \<open>the default configuration with the given size cap\<close>
  "config n =
     \<lparr>Port = ''8080'', GrabSecret = [], MaxSize = n, MaxSizeStr = ''1GB'',
      MaxConcurrent = 5, RateLimit = 1, RateBurst = 5\<rparr>"

definition free_sem :: Sem where
  "free_sem = \<lparr>capacity = 5, held = 0, events = []\<rparr>"

definition example_lib :: "nat RateLib" where
  \<comment> \<open>a bucket of \<open>burst\<close> tokens that is never refilled\<close>
  "example_lib = \<lparr>NewLimiter = (\<lambda>r b. nat b), Allow = (\<lambda>l. (0 < l, l - 1))\<rparr>"

definition example_limiter :: "nat IPRateLimiter" where
  \<comment> \<open>two clients, last seen at 10 s and at 100 s\<close>
  "example_limiter =
     \<lparr>ips = [''10.0.0.1'' \<mapsto> \<lparr>limiter = 5, lastSeen = 10 * Second\<rparr>,
             ''10.0.0.2'' \<mapsto> \<lparr>limiter = 5, lastSeen = 100 * Second\<rparr>],
      limit = 1, burst = 5\<rparr>"

definition example_visits :: "(string \<times> int) list" where
  \<comment> \<open>a sweep that starts at 200 s\<close>
  "example_visits = [(''10.0.0.2'', 200 * Second), (''10.0.0.1'', 200 * Second + 1)]"

definition forwarded_request :: "string \<Rightarrow> Request" where
  \<comment> \<open>a stream request that came through a proxy\<close>
  "forwarded_request f =
     \<lparr>Method = ''GET'', Query = [''url'' \<mapsto> [''http://host/a.bin'']],
      ReqHeader = [''X-Forwarded-For'' \<mapsto> [f]], RemoteAddr = ''10.0.0.1:5000''\<rparr>"

definition full_sem :: Sem where
  "full_sem = \<lparr>capacity = 5, held = 5, events = []\<rparr>"

section \<open>Properties\<close>

subsection \<open>The response writer\<close>

lemma status_http_Error:
  "status w = None \<Longrightarrow> status (http_Error w msg code) = Some code"
  by (simp add: http_Error_def Write_def WriteHeader_def Let_def split: option.splits)

lemma body_http_Error_room:
  "room w = None \<Longrightarrow> body (http_Error w msg code) = body w @ msg @ [CHR 0x0A]"
  by (simp add: http_Error_def Write_def WriteHeader_def Let_def split: option.splits)

subsection \<open>The capped copy\<close>

lemma Write_cases:
  obtains q where "body (fst (Write w p)) = body w @ q" and "prefix q p"
    and "\<not> snd (Write w p) \<Longrightarrow> q = p"
    and "header (fst (Write w p)) = header w"
    and "status (fst (Write w p)) = Some (case status w of None \<Rightarrow> 200 | Some c \<Rightarrow> c)"
    and "room w = None \<Longrightarrow> room (fst (Write w p)) = None \<and> \<not> snd (Write w p)"
proof (cases "room w")
  case None
  then show ?thesis
    by (intro that [of p]) (simp_all add: Write_def WriteHeader_def Let_def split: option.splits)
next
  case (Some k)
  show ?thesis
  proof (cases "length p \<le> k")
    case True
    with Some show ?thesis
      by (intro that [of p]) (simp_all add: Write_def WriteHeader_def Let_def split: option.splits)
  next
    case False
    with Some show ?thesis
      by (intro that [of "take k p"])
        (simp_all add: Write_def WriteHeader_def Let_def take_is_prefix split: option.splits)
  qed
qed

lemma Copy_loop_step:
  assumes "k \<noteq> 0" and "LimitedReader_Read k l = (p, er, l')"
  shows "Copy_loop k w l =
    (let (w', ew) = (if p \<noteq> [] then Write w p else (w, False)) in
     if ew then (w', Some ErrWrite)
     else (case er of Some e \<Rightarrow> (w', if e = EOF then None else Some e)
           | None \<Rightarrow> Copy_loop k w' l'))"
  using assms by (subst Copy_loop.simps) simp

lemma Copy_loop_invariant:
  assumes step: "\<And>w p. I w \<Longrightarrow> I (fst (Write w p))" and "I w"
  shows "I (fst (Copy_loop k w l))"
  using \<open>I w\<close>
proof (induction k w l rule: Copy_loop.induct)
  case (1 k w l)
  show ?case
  proof (cases "k = 0")
    case True
    with "1.prems" show ?thesis by (simp add: Copy_loop.simps)
  next
    case False
    obtain p er l' where rd: "LimitedReader_Read k l = (p, er, l')"
      by (cases "LimitedReader_Read k l") auto
    obtain w' ew where wr: "(if p \<noteq> [] then Write w p else (w, False)) = (w', ew)"
      by (cases "if p \<noteq> [] then Write w p else (w, False)") auto
    have I': "I w'"
      using wr step [OF "1.prems", of p] "1.prems" by (auto split: if_splits)
    show ?thesis
    proof (cases "\<not> ew \<and> er = None")
      case True
      with "1.IH" [OF False rd [symmetric] refl wr [symmetric]] I'
      have "I (fst (Copy_loop k w' l'))"
        by simp
      with True wr show ?thesis
        by (simp add: Copy_loop_step [OF False rd])
    next
      case False
      with wr I' show ?thesis
        by (auto simp: Copy_loop_step [OF \<open>k \<noteq> 0\<close> rd] split: option.splits)
    qed
  qed
qed

lemma Copy_loop_header: "header (fst (Copy_loop k w l)) = header w"
proof -
  have "header (fst (Copy_loop k w l)) = header w \<and> True"
    by (rule Copy_loop_invariant [where I = "\<lambda>w'. header w' = header w \<and> True"])
      (use Write_cases in metis, simp)
  then show ?thesis by simp
qed

lemma Copy_loop_status:
  "status (fst (Copy_loop k w l)) = status w \<or> status (fst (Copy_loop k w l)) = Some 200 \<and> status w = None"
  by (rule Copy_loop_invariant [where I = "\<lambda>w'. status w' = status w \<or> status w' = Some 200 \<and> status w = None"])
    (auto simp: Write_def WriteHeader_def Let_def split: option.splits)

lemma nat_minus_int: "nat (a - int n) = nat a - n"
  by arith

lemma take_append_split:
  assumes "k \<le> n" and "k \<le> length c"
  shows "take n (c @ xs) = take k c @ take (n - k) (drop k c @ xs)"
proof -
  have "take n (c @ xs) = take n (take k c @ (drop k c @ xs))"
    by (metis append_assoc append_take_drop_id)
  also have "\<dots> = take k c @ take (n - k) (drop k c @ xs)"
    using assms by (simp add: min_absorb2 min_absorb1)
  finally show ?thesis .
qed

lemma LimitedReader_Read_take:
  assumes "k \<noteq> 0" and "LimitedReader_Read k l = (p, er, l')"
  shows "case er of
           Some _ \<Rightarrow> p = [] \<and> take (nat (N l)) (concat (chunks (R l))) = []
         | None \<Rightarrow> take (nat (N l)) (concat (chunks (R l))) =
                     p @ take (nat (N l')) (concat (chunks (R l')))"
proof (cases "N l \<le> 0")
  case True
  with assms show ?thesis
    by (auto simp: LimitedReader_Read_def)
next
  case False
  define k' where "k' = (if int k > N l then nat (N l) else k)"
  have k': "k' \<le> nat (N l)"
    using False by (auto simp: k'_def)
  from assms False obtain r' where br: "Body_Read k' (R l) = (p, er, r')"
    and l': "l' = \<lparr>R = r', N = N l - int (length p)\<rparr>"
    by (auto simp: LimitedReader_Read_def Let_def k'_def split: prod.splits)
  show ?thesis
  proof (cases "chunks (R l)")
    case Nil
    with br show ?thesis
      by (auto simp: Body_Read_def)
  next
    case (Cons c cs)
    show ?thesis
    proof (cases "length c \<le> k'")
      case True
      with br Cons have "p = c" "er = None" "chunks r' = cs"
        by (auto simp: Body_Read_def)
      with Cons True k' l' show ?thesis
        by (simp add: nat_minus_int)
    next
      case False
      with br Cons have p: "p = take k' c" "er = None" "chunks r' = drop k' c # cs"
        by (auto simp: Body_Read_def)
      have "take (nat (N l)) (c @ concat cs) =
            take k' c @ take (nat (N l) - k') (drop k' c @ concat cs)"
        using False k' by (intro take_append_split) simp_all
      then show ?thesis
        using p Cons False k' l' by (simp add: nat_minus_int min_absorb2)
    qed
  qed
qed

lemma Copy_loop_body:
  "\<exists>out. body (fst (Copy_loop k w l)) = body w @ out \<and>
     prefix out (take (nat (N l)) (concat (chunks (R l)))) \<and>
     (room w = None \<and> k \<noteq> 0 \<longrightarrow> out = take (nat (N l)) (concat (chunks (R l))))"
proof (induction k w l rule: Copy_loop.induct)
  case (1 k w l)
  show ?case
  proof (cases "k = 0")
    case True
    then show ?thesis by (simp add: Copy_loop.simps)
  next
    case False
    obtain p er l' where rd: "LimitedReader_Read k l = (p, er, l')"
      by (cases "LimitedReader_Read k l") auto
    note tk = LimitedReader_Read_take [OF False rd]
    obtain w' ew where wr: "(if p \<noteq> [] then Write w p else (w, False)) = (w', ew)"
      by (cases "if p \<noteq> [] then Write w p else (w, False)") auto
    obtain q where q: "body w' = body w @ q" "prefix q p" "\<not> ew \<Longrightarrow> q = p"
      "room w = None \<Longrightarrow> room w' = None \<and> \<not> ew"
    proof (cases "p = []")
      case True
      with wr that [of "[]"] show ?thesis by simp
    next
      case False
      with wr Write_cases [of w p] that show ?thesis
        by (metis fst_conv snd_conv)
    qed
    show ?thesis
    proof (cases "\<not> ew \<and> er = None")
      case True
      from "1" [OF False rd [symmetric] refl wr [symmetric]] True
      obtain out where out: "body (fst (Copy_loop k w' l')) = body w' @ out"
        "prefix out (take (nat (N l')) (concat (chunks (R l'))))"
        "room w' = None \<and> k \<noteq> 0 \<longrightarrow> out = take (nat (N l')) (concat (chunks (R l')))"
        by auto
      have res: "Copy_loop k w l = Copy_loop k w' l'"
        using True wr by (simp add: Copy_loop_step [OF False rd])
      from True tk have eq: "take (nat (N l)) (concat (chunks (R l))) =
          p @ take (nat (N l')) (concat (chunks (R l')))"
        by simp
      show ?thesis
        using out q True False by (intro exI [of _ "p @ out"]) (auto simp: res eq)
    next
      case stop: False
      have res: "fst (Copy_loop k w l) = w'"
        using stop wr by (auto simp: Copy_loop_step [OF False rd] split: option.splits)
      show ?thesis
      proof (cases ew)
        case True
        then have "p \<noteq> []" and "er = None \<or> p = []"
          using wr tk by (auto split: if_splits option.splits)
        then have "prefix p (take (nat (N l)) (concat (chunks (R l))))"
          using tk by (auto split: option.splits)
        with q True show ?thesis
          by (intro exI [of _ q]) (auto simp: res intro: prefix_order.trans)
      next
        case False
        with stop obtain e where "er = Some e" by auto
        with tk have "p = []" "take (nat (N l)) (concat (chunks (R l))) = []"
          by auto
        with q False show ?thesis
          by (intro exI [of _ "[]"]) (auto simp: res)
      qed
    qed
  qed
qed

lemma Copy_header: "header (fst (Copy w l)) = header w"
  by (simp add: Copy_def Let_def Copy_loop_header)

lemma Copy_status:
  "status (fst (Copy w l)) = status w \<or> status (fst (Copy w l)) = Some 200 \<and> status w = None"
  unfolding Copy_def Let_def by (rule Copy_loop_status)

lemma Copy_body:
  "\<exists>out. body (fst (Copy w l)) = body w @ out \<and>
     prefix out (take (nat (N l)) (concat (chunks (R l)))) \<and>
     (room w = None \<longrightarrow> out = take (nat (N l)) (concat (chunks (R l))))"
  using Copy_loop_body [of "if (32 * 1024 :: int) > N l then (if N l < 1 then 1 else nat (N l)) else 32 * 1024" w l]
  unfolding Copy_def Let_def by (auto split: if_splits)

subsection \<open>The stream handler, path by path\<close>

lemma Split_not_Nil: "Split s c \<noteq> []"
  by (induction s) (auto split: list.splits)

lemma Split_no_sep: "c \<notin> set s \<Longrightarrow> Split s c = [s]"
  by (induction s) auto

lemma after_last_Cons:
  "after_last c (x # s) = (if c \<in> set s then after_last c s else if x = c then s else x # s)"
  by (auto simp: after_last_def takeWhile_append)

lemma Split_sep: "c \<in> set s \<Longrightarrow> \<exists>p q ps. Split s c = p # q # ps"
proof (induction s)
  case Nil
  then show ?case by simp
next
  case (Cons x s)
  show ?case
  proof (cases "x = c")
    case True
    then show ?thesis
      using Split_not_Nil [of s c] by (cases "Split s c") auto
  next
    case False
    with Cons show ?thesis by auto
  qed
qed

lemma last_Split: "last (Split s c) = after_last c s"
proof (induction s)
  case Nil
  then show ?case by (simp add: after_last_def)
next
  case (Cons x s)
  show ?case
  proof (cases "c \<in> set s")
    case True
    then obtain p q ps where "Split s c = p # q # ps"
      using Split_sep by blast
    with Cons True show ?thesis
      by (simp add: after_last_Cons)
  next
    case False
    then show ?thesis
      by (simp add: after_last_Cons Split_no_sep)
  qed
qed

lemma Split_last_index: "Split s c ! (length (Split s c) - Suc 0) = after_last c s"
  using last_conv_nth [OF Split_not_Nil, of s c] by (simp add: last_Split)

lemma stream_with_slot_relay:
  assumes "Header_Get (Query r) ''url'' = u" and "u \<noteq> []"
    and "\<not> NewRequest_err W ''GET'' u"
    and "Do W \<lparr>Timeout = 0\<rparr> ''GET'' u = Inr resp"
    and "StatusCode resp < 400" and "ContentLength resp \<le> MaxSize cfg"
  shows "\<exists>w3. stream_with_slot W w r cfg =
            fst (Copy w3 (LimitReader (RespBody resp) (MaxSize cfg))) \<and>
          body w3 = body w \<and> status w3 = status w \<and> room w3 = room w \<and>
          header w3 ''Content-Length'' =
            (if ContentLength resp > 0 then Some [Sprintf_d (ContentLength resp)]
             else header w ''Content-Length'') \<and>
          header w3 ''Content-Type'' =
            (if Header_Get (RespHeader resp) ''Content-Type'' \<noteq> []
             then Some [Header_Get (RespHeader resp) ''Content-Type'']
             else header w ''Content-Type'') \<and>
          header w3 ''Content-Disposition'' =
            (if Header_Get (RespHeader resp) ''Content-Disposition'' \<noteq> []
             then Some [Header_Get (RespHeader resp) ''Content-Disposition'']
             else if after_last CHR ''/'' u \<noteq> []
             then Some [''attachment; filename='' @ [CHR 0x22] @ after_last CHR ''/'' u @ [CHR 0x22]]
             else header w ''Content-Disposition'')"
proof -
  define w1 where "w1 =
    (if ContentLength resp > 0
     then w\<lparr>header := Header_Set (header w) ''Content-Length'' (Sprintf_d (ContentLength resp))\<rparr>
     else w)"
  define ct where "ct = Header_Get (RespHeader resp) ''Content-Type''"
  define w2 where "w2 =
    (if ct \<noteq> [] then w1\<lparr>header := Header_Set (header w1) ''Content-Type'' ct\<rparr> else w1)"
  define cd where "cd = Header_Get (RespHeader resp) ''Content-Disposition''"
  define name where "name = after_last CHR ''/'' u"
  define w3 where "w3 =
    (if cd \<noteq> [] then w2\<lparr>header := Header_Set (header w2) ''Content-Disposition'' cd\<rparr>
     else if name \<noteq> []
     then w2\<lparr>header := Header_Set (header w2) ''Content-Disposition''
               (''attachment; filename='' @ [CHR 0x22] @ name @ [CHR 0x22])\<rparr>
     else w2)"
  have "stream_with_slot W w r cfg = fst (Copy w3 (LimitReader (RespBody resp) (MaxSize cfg)))"
    using assms Split_not_Nil [of u "CHR ''/''"]
    by (simp add: stream_with_slot_def Let_def Split_last_index
        w1_def w2_def w3_def ct_def cd_def name_def)
  moreover have "body w3 = body w" "status w3 = status w" "room w3 = room w"
    by (simp_all add: w1_def w2_def w3_def)
  moreover have "header w3 ''Content-Length'' =
      (if ContentLength resp > 0 then Some [Sprintf_d (ContentLength resp)]
       else header w ''Content-Length'')"
    by (simp add: w1_def w2_def w3_def Header_Set_def)
  moreover have "header w3 ''Content-Type'' =
      (if ct \<noteq> [] then Some [ct] else header w ''Content-Type'')"
    by (simp add: w1_def w2_def w3_def Header_Set_def)
  moreover have "header w3 ''Content-Disposition'' =
      (if cd \<noteq> [] then Some [cd]
       else if name \<noteq> []
       then Some [''attachment; filename='' @ [CHR 0x22] @ name @ [CHR 0x22]]
       else header w ''Content-Disposition'')"
    by (simp add: w1_def w2_def w3_def Header_Set_def)
  ultimately show ?thesis
    unfolding ct_def cd_def name_def by blast
qed

lemma handleStream_with_slot:
  assumes "Method r = ''GET''" and "held sem < capacity sem"
  shows "handleStream W w r cfg sem =
    (stream_with_slot W w r cfg, sem\<lparr>events := events sem @ [Acquired, Released]\<rparr>)"
  using assms by (simp add: handleStream_def try_send_def recv_def)

lemma handleStream_relay_headers:
  assumes "Method r = ''GET''" and "held sem < capacity sem"
    and "Header_Get (Query r) ''url'' = u" and "u \<noteq> []"
    and "\<not> NewRequest_err W ''GET'' u"
    and "Do W \<lparr>Timeout = 0\<rparr> ''GET'' u = Inr resp"
    and "StatusCode resp < 400" and "ContentLength resp \<le> MaxSize cfg"
  shows "header (fst (handleStream W w r cfg sem)) ''Content-Length'' =
      (if ContentLength resp > 0 then Some [Sprintf_d (ContentLength resp)]
       else header w ''Content-Length'')"
    and "header (fst (handleStream W w r cfg sem)) ''Content-Type'' =
      (if Header_Get (RespHeader resp) ''Content-Type'' \<noteq> []
       then Some [Header_Get (RespHeader resp) ''Content-Type'']
       else header w ''Content-Type'')"
    and "header (fst (handleStream W w r cfg sem)) ''Content-Disposition'' =
      (if Header_Get (RespHeader resp) ''Content-Disposition'' \<noteq> []
       then Some [Header_Get (RespHeader resp) ''Content-Disposition'']
       else if after_last CHR ''/'' u \<noteq> []
       then Some [''attachment; filename='' @ [CHR 0x22] @ after_last CHR ''/'' u @ [CHR 0x22]]
       else header w ''Content-Disposition'')"
proof -
  from stream_with_slot_relay [OF assms(3-8), of w]
  obtain w3 where "stream_with_slot W w r cfg =
      fst (Copy w3 (LimitReader (RespBody resp) (MaxSize cfg)))"
    and "header w3 ''Content-Length'' =
      (if ContentLength resp > 0 then Some [Sprintf_d (ContentLength resp)]
       else header w ''Content-Length'')"
    and "header w3 ''Content-Type'' =
      (if Header_Get (RespHeader resp) ''Content-Type'' \<noteq> []
       then Some [Header_Get (RespHeader resp) ''Content-Type'']
       else header w ''Content-Type'')"
    and "header w3 ''Content-Disposition'' =
      (if Header_Get (RespHeader resp) ''Content-Disposition'' \<noteq> []
       then Some [Header_Get (RespHeader resp) ''Content-Disposition'']
       else if after_last CHR ''/'' u \<noteq> []
       then Some [''attachment; filename='' @ [CHR 0x22] @ after_last CHR ''/'' u @ [CHR 0x22]]
       else header w ''Content-Disposition'')"
    by blast
  then show "header (fst (handleStream W w r cfg sem)) ''Content-Length'' =
      (if ContentLength resp > 0 then Some [Sprintf_d (ContentLength resp)]
       else header w ''Content-Length'')"
    and "header (fst (handleStream W w r cfg sem)) ''Content-Type'' =
      (if Header_Get (RespHeader resp) ''Content-Type'' \<noteq> []
       then Some [Header_Get (RespHeader resp) ''Content-Type'']
       else header w ''Content-Type'')"
    and "header (fst (handleStream W w r cfg sem)) ''Content-Disposition'' =
      (if Header_Get (RespHeader resp) ''Content-Disposition'' \<noteq> []
       then Some [Header_Get (RespHeader resp) ''Content-Disposition'']
       else if after_last CHR ''/'' u \<noteq> []
       then Some [''attachment; filename='' @ [CHR 0x22] @ after_last CHR ''/'' u @ [CHR 0x22]]
       else header w ''Content-Disposition'')"
    by (simp_all add: handleStream_with_slot [OF assms(1,2)] Copy_header)
qed

lemma digit_value: "d < 10 \<Longrightarrow> of_char (''0123456789'' ! d) = (48 + d :: nat)"
proof -
  assume "d < 10"
  then have "d \<in> {0, 1, 2, 3, 4, 5, 6, 7, 8, 9}"
    by auto
  then show ?thesis
    by auto
qed

lemma decimal_value_decimal: "decimal_value (decimal n) = n"
proof (induction n rule: decimal.induct)
  case (1 n)
  show ?case
  proof (cases "n < 10")
    case True
    then show ?thesis
      by (subst decimal.simps) (simp add: decimal_value_def digit_value)
  next
    case False
    with 1 have "decimal_value (decimal (n div 10)) = n div 10"
      by simp
    with False show ?thesis
      by (subst decimal.simps) (simp add: decimal_value_def digit_value)
  qed
qed


lemmas example_defs =
  stream_request_def upstream_def example_response_def empty_response_def config_def
  free_sem_def full_sem_def NewRecorder_def Header_Get_def

lemma example_sel:
  "status NewRecorder = None" "room NewRecorder = None" "body NewRecorder = []"
  "header NewRecorder k = None"
  "StatusCode (example_response c n) = c" "ContentLength (example_response c n) = n"
  "concat (chunks (RespBody (example_response c n))) = ''abcdef''"
  "MaxSize (config n) = n"
  by (simp_all add: example_defs)

subsection \<open>The size cap\<close>

text \<open>
  C1. Take a stream request that reaches the relay: a GET with a free slot and a
  \<open>url\<close> that parses, an upstream that answers with a status below 400 and declares
  no length (\<open>-1\<close>) or one within the cap. Whatever the upstream body holds, what
  the handler appends to the response body is a prefix of the upstream's bytes of at
  most \<open>MaxSize\<close> bytes (none when the cap is not positive). On a connection that
  stays open it is exactly the first \<open>MaxSize\<close> bytes, so a body longer than the cap
  is cut at the cap; a failing client write can only make it shorter.
\<close>

theorem handleStream_relay_capped:
  assumes "Method r = ''GET''" and "held sem < capacity sem"
    and "Header_Get (Query r) ''url'' = u" and "u \<noteq> []"
    and "\<not> NewRequest_err W ''GET'' u"
    and "Do W \<lparr>Timeout = 0\<rparr> ''GET'' u = Inr resp"
    and "StatusCode resp < 400" and "ContentLength resp \<le> MaxSize cfg"
  shows "\<exists>out. body (fst (handleStream W w r cfg sem)) = body w @ out \<and>
    prefix out (concat (chunks (RespBody resp))) \<and>
    length out \<le> nat (MaxSize cfg) \<and>
    (room w = None \<longrightarrow> out = take (nat (MaxSize cfg)) (concat (chunks (RespBody resp)))) \<and>
    (room w = None \<and> nat (MaxSize cfg) < length (concat (chunks (RespBody resp))) \<longrightarrow>
       length out = nat (MaxSize cfg))"
proof -
  from stream_with_slot_relay [OF assms(3-8), of w]
  obtain w3 where w3: "stream_with_slot W w r cfg =
      fst (Copy w3 (LimitReader (RespBody resp) (MaxSize cfg)))"
    "body w3 = body w" "room w3 = room w"
    by blast
  from Copy_body [of w3 "LimitReader (RespBody resp) (MaxSize cfg)"]
  obtain out where out: "body (stream_with_slot W w r cfg) = body w @ out"
    "prefix out (take (nat (MaxSize cfg)) (concat (chunks (RespBody resp))))"
    "room w = None \<longrightarrow> out = take (nat (MaxSize cfg)) (concat (chunks (RespBody resp)))"
    by (auto simp: w3 LimitReader_def)
  from out(2) have "prefix out (concat (chunks (RespBody resp)))"
    by (meson prefix_order.trans take_is_prefix)
  moreover from out(2) have "length out \<le> nat (MaxSize cfg)"
    by (metis prefix_length_le length_take min.cobounded2 le_trans)
  ultimately show ?thesis
    using out(1,3) by (intro exI [of _ out]) (auto simp: handleStream_with_slot [OF assms(1,2)])
qed

theorem handleStream_relay_capped_witness:
  "ContentLength (example_response 200 (- 1)) \<le> MaxSize (config 4) \<and>
   nat (MaxSize (config 4)) < length (concat (chunks (RespBody (example_response 200 (- 1))))) \<and>
   body (fst (handleStream (upstream (Inr (example_response 200 (- 1)))) NewRecorder
      (stream_request ''GET'' ''http://host/a.bin'') (config 4) free_sem)) = ''abcd''"
proof -
  have "\<exists>out. body (fst (handleStream (upstream (Inr (example_response 200 (- 1)))) NewRecorder
        (stream_request ''GET'' ''http://host/a.bin'') (config 4) free_sem)) =
        body NewRecorder @ out \<and>
      prefix out (concat (chunks (RespBody (example_response 200 (- 1))))) \<and>
      length out \<le> nat (MaxSize (config 4)) \<and>
      (room NewRecorder = None \<longrightarrow>
         out = take (nat (MaxSize (config 4)))
                 (concat (chunks (RespBody (example_response 200 (- 1)))))) \<and>
      (room NewRecorder = None \<and>
       nat (MaxSize (config 4)) < length (concat (chunks (RespBody (example_response 200 (- 1)))))
       \<longrightarrow> length out = nat (MaxSize (config 4)))"
    by (rule handleStream_relay_capped [where u = "''http://host/a.bin''"])
      (simp_all add: example_defs)
  then show ?thesis
    by (auto simp: example_sel)
qed



text \<open>
  C10. Same request, with a declared length equal to \<open>MaxSize\<close>: the comparison is
  strict, so the response is not the 413 one, and when the body holds exactly
  \<open>MaxSize\<close> bytes and the connection stays open, all of them are appended to the
  response body.
\<close>

theorem handleStream_length_equals_cap:
  assumes "Method r = ''GET''" and "held sem < capacity sem"
    and "Header_Get (Query r) ''url'' = u" and "u \<noteq> []"
    and "\<not> NewRequest_err W ''GET'' u"
    and "Do W \<lparr>Timeout = 0\<rparr> ''GET'' u = Inr resp"
    and "StatusCode resp < 400" and "ContentLength resp = MaxSize cfg"
  shows "(status w = None \<longrightarrow> status (fst (handleStream W w r cfg sem)) \<noteq> Some 413) \<and>
    (room w = None \<and> int (length (concat (chunks (RespBody resp)))) = MaxSize cfg \<longrightarrow>
       body (fst (handleStream W w r cfg sem)) = body w @ concat (chunks (RespBody resp)))"
proof -
  have le: "ContentLength resp \<le> MaxSize cfg"
    using assms(8) by simp
  from stream_with_slot_relay [OF assms(3-7) le, of w]
  obtain w3 where w3: "stream_with_slot W w r cfg =
      fst (Copy w3 (LimitReader (RespBody resp) (MaxSize cfg)))"
    "body w3 = body w" "room w3 = room w" "status w3 = status w"
    by blast
  have "status w = None \<longrightarrow> status (stream_with_slot W w r cfg) \<noteq> Some 413"
    using Copy_status [of w3 "LimitReader (RespBody resp) (MaxSize cfg)"] w3 by auto
  moreover have "room w = None \<and> int (length (concat (chunks (RespBody resp)))) = MaxSize cfg \<longrightarrow>
       body (stream_with_slot W w r cfg) = body w @ concat (chunks (RespBody resp))"
    using Copy_body [of w3 "LimitReader (RespBody resp) (MaxSize cfg)"] w3
    by (auto simp: LimitReader_def)
  ultimately show ?thesis
    by (simp add: handleStream_with_slot [OF assms(1,2)])
qed

theorem handleStream_length_equals_cap_witness:
  "ContentLength (example_response 200 6) = MaxSize (config 6) \<and>
   int (length (concat (chunks (RespBody (example_response 200 6))))) = MaxSize (config 6) \<and>
   status (fst (handleStream (upstream (Inr (example_response 200 6))) NewRecorder
      (stream_request ''GET'' ''http://host/a.bin'') (config 6) free_sem)) \<noteq> Some 413 \<and>
   body (fst (handleStream (upstream (Inr (example_response 200 6))) NewRecorder
      (stream_request ''GET'' ''http://host/a.bin'') (config 6) free_sem)) = ''abcdef''"
proof -
  have "(status NewRecorder = None \<longrightarrow>
       status (fst (handleStream (upstream (Inr (example_response 200 6))) NewRecorder
        (stream_request ''GET'' ''http://host/a.bin'') (config 6) free_sem)) \<noteq> Some 413) \<and>
    (room NewRecorder = None \<and>
     int (length (concat (chunks (RespBody (example_response 200 6))))) = MaxSize (config 6) \<longrightarrow>
       body (fst (handleStream (upstream (Inr (example_response 200 6))) NewRecorder
        (stream_request ''GET'' ''http://host/a.bin'') (config 6) free_sem)) =
       body NewRecorder @ concat (chunks (RespBody (example_response 200 6))))"
    by (rule handleStream_length_equals_cap [where u = "''http://host/a.bin''"])
      (simp_all add: example_defs)
  then show ?thesis
    by (simp add: example_sel)
qed

subsection \<open>The concurrency gate\<close>

text \<open>
  C9. For a GET stream request without a \<open>url\<close> parameter the slot comes first.
  When every slot is held the response is the 503 one and the semaphore is untouched.
  When a slot is free the send succeeds, the response is the 400 one for the missing
  parameter, and the deferred receive gives the slot back: the semaphore holds as many
  elements as before, and its history gained one send followed by one receive.
\<close>

theorem handleStream_missing_url:
  assumes "Method r = ''GET''" and "Header_Get (Query r) ''url'' = []"
  shows "(capacity sem \<le> held sem \<longrightarrow>
            handleStream W w r cfg sem = (http_Error w ''Service Unavailable'' 503, sem)) \<and>
         (held sem < capacity sem \<longrightarrow>
            try_send sem \<noteq> None \<and>
            handleStream W w r cfg sem =
              (http_Error w ''Missing url parameter'' 400, recv (the (try_send sem))) \<and>
            snd (handleStream W w r cfg sem) =
              sem\<lparr>events := events sem @ [Acquired, Released]\<rparr>) \<and>
         (status w = None \<longrightarrow>
            status (fst (handleStream W w r cfg sem)) =
              Some (if held sem < capacity sem then 400 else 503))"
  using assms
  by (simp add: handleStream_def try_send_def recv_def stream_with_slot_def Let_def
      status_http_Error)

theorem handleStream_missing_url_witness:
  "status (fst (handleStream (upstream (Inr (example_response 200 6))) NewRecorder
      (stream_request ''GET'' []) (config 6) full_sem)) = Some 503 \<and>
   snd (handleStream (upstream (Inr (example_response 200 6))) NewRecorder
      (stream_request ''GET'' []) (config 6) full_sem) = full_sem \<and>
   status (fst (handleStream (upstream (Inr (example_response 200 6))) NewRecorder
      (stream_request ''GET'' []) (config 6) free_sem)) = Some 400 \<and>
   snd (handleStream (upstream (Inr (example_response 200 6))) NewRecorder
      (stream_request ''GET'' []) (config 6) free_sem) =
     \<lparr>capacity = 5, held = 0, events = [Acquired, Released]\<rparr>"
  using
    handleStream_missing_url [of "stream_request ''GET'' []" full_sem
      "upstream (Inr (example_response 200 6))" NewRecorder "config 6"]
    handleStream_missing_url [of "stream_request ''GET'' []" free_sem
      "upstream (Inr (example_response 200 6))" NewRecorder "config 6"]
  by (simp add: example_sel stream_request_def Header_Get_def free_sem_def full_sem_def
      status_http_Error try_send_def recv_def)

subsection \<open>Upstream failures\<close>

text \<open>
  C6. Take a request with a \<open>url\<close> parameter that parses, on a fresh writer. When
  the upstream answers with a status of 400 or more, the probe handler and the stream
  handler both give the response of \<^verbatim>\<open>http.Error\<close> with status 502 and the
  message \<^verbatim>\<open>Source returned error: <status>\<close>: the response status is 502
  whatever the upstream status was. When the upstream cannot be reached, both give
  status 502 with the message \<^verbatim>\<open>Failed to reach source: <error>\<close>. The two
  outcomes come from different branches and their bodies differ.
\<close>

theorem upstream_failures_are_502:
  assumes "Header_Get (Query r) ''url'' = u" and "u \<noteq> []" and "status w = None"
  shows
    "((Method r = ''HEAD'' \<or> Method r = ''GET'') \<and> \<not> NewRequest_err W ''HEAD'' u \<and>
      Do W \<lparr>Timeout = 10 * Second\<rparr> ''HEAD'' u = Inr resp \<and> StatusCode resp \<ge> 400 \<longrightarrow>
        handleProbe W w r =
          http_Error w (''Source returned error: '' @ Sprintf_d (StatusCode resp)) 502 \<and>
        status (handleProbe W w r) = Some 502) \<and>
     ((Method r = ''HEAD'' \<or> Method r = ''GET'') \<and> \<not> NewRequest_err W ''HEAD'' u \<and>
      Do W \<lparr>Timeout = 10 * Second\<rparr> ''HEAD'' u = Inl err \<longrightarrow>
        handleProbe W w r = http_Error w (''Failed to reach source: '' @ err) 502 \<and>
        status (handleProbe W w r) = Some 502) \<and>
     (Method r = ''GET'' \<and> held sem < capacity sem \<and> \<not> NewRequest_err W ''GET'' u \<and>
      Do W \<lparr>Timeout = 0\<rparr> ''GET'' u = Inr resp \<and> StatusCode resp \<ge> 400 \<longrightarrow>
        fst (handleStream W w r cfg sem) =
          http_Error w (''Source returned error: '' @ Sprintf_d (StatusCode resp)) 502 \<and>
        status (fst (handleStream W w r cfg sem)) = Some 502) \<and>
     (Method r = ''GET'' \<and> held sem < capacity sem \<and> \<not> NewRequest_err W ''GET'' u \<and>
      Do W \<lparr>Timeout = 0\<rparr> ''GET'' u = Inl err \<longrightarrow>
        fst (handleStream W w r cfg sem) =
          http_Error w (''Failed to reach source: '' @ err) 502 \<and>
        status (fst (handleStream W w r cfg sem)) = Some 502) \<and>
     (room w = None \<longrightarrow>
        body (http_Error w (''Source returned error: '' @ Sprintf_d (StatusCode resp)) 502) \<noteq>
        body (http_Error w (''Failed to reach source: '' @ err) 502))"
  using assms
  by (auto simp: handleProbe_def handleStream_with_slot stream_with_slot_def Let_def
      status_http_Error body_http_Error_room)

theorem upstream_failures_are_502_witness:
  "StatusCode (example_response 404 6) \<ge> 400 \<and>
   status (handleProbe (upstream (Inr (example_response 404 6))) NewRecorder
      (stream_request ''HEAD'' ''http://host/a.bin'')) = Some 502 \<and>
   body (handleProbe (upstream (Inr (example_response 404 6))) NewRecorder
      (stream_request ''HEAD'' ''http://host/a.bin'')) =
     ''Source returned error: 404'' @ [CHR 0x0A] \<and>
   status (fst (handleStream (upstream (Inr (example_response 404 6))) NewRecorder
      (stream_request ''GET'' ''http://host/a.bin'') (config 6) free_sem)) = Some 502 \<and>
   body (fst (handleStream (upstream (Inl ''dial tcp: i/o timeout'')) NewRecorder
      (stream_request ''GET'' ''http://host/a.bin'') (config 6) free_sem)) =
     ''Failed to reach source: dial tcp: i/o timeout'' @ [CHR 0x0A]"
  using
    upstream_failures_are_502 [where r = "stream_request ''HEAD'' ''http://host/a.bin''"
      and u = "''http://host/a.bin''" and w = NewRecorder
      and W = "upstream (Inr (example_response 404 6))" and resp = "example_response 404 6"]
    upstream_failures_are_502 [where r = "stream_request ''GET'' ''http://host/a.bin''"
      and u = "''http://host/a.bin''" and w = NewRecorder
      and W = "upstream (Inr (example_response 404 6))" and resp = "example_response 404 6"
      and sem = free_sem and cfg = "config 6"]
    upstream_failures_are_502 [where r = "stream_request ''GET'' ''http://host/a.bin''"
      and u = "''http://host/a.bin''" and w = NewRecorder
      and W = "upstream (Inl ''dial tcp: i/o timeout'')" and err = "''dial tcp: i/o timeout''"
      and sem = free_sem and cfg = "config 6"]
  by (simp add: example_sel stream_request_def upstream_def Header_Get_def free_sem_def
      status_http_Error body_http_Error_room Sprintf_d_def decimal.simps)

subsection \<open>The response headers of a stream\<close>

text \<open>
  C7, as stated, fails for an upstream that declares a length of zero: the length is
  known, and the handler sets no \<^verbatim>\<open>Content-Length\<close> header.
\<close>

theorem content_length_zero_counterexample:
  "ContentLength empty_response = 0 \<and>
   Sprintf_d (ContentLength empty_response) = ''0'' \<and>
   header (fst (handleStream (upstream (Inr empty_response)) NewRecorder
      (stream_request ''GET'' ''http://host/a.bin'') (config 6) free_sem)) ''Content-Length''
     = None"
proof -
  have "header (fst (handleStream (upstream (Inr empty_response)) NewRecorder
      (stream_request ''GET'' ''http://host/a.bin'') (config 6) free_sem)) ''Content-Length'' =
      (if ContentLength empty_response > 0 then Some [Sprintf_d (ContentLength empty_response)]
       else header NewRecorder ''Content-Length'')"
    by (rule handleStream_relay_headers(1) [where u = "''http://host/a.bin''"])
      (simp_all add: example_defs)
  then show ?thesis
    by (simp add: example_sel empty_response_def Sprintf_d_def decimal.simps)
qed

text \<open>
  C7, amended. For a stream request that passes the size check (a GET with a free slot
  and a \<open>url\<close> that parses, an upstream status below 400 and a declared length not
  above the cap): when the declared length is positive, the response's
  \<^verbatim>\<open>Content-Length\<close> is its decimal rendering, a digit string that denotes the
  same number; when it is zero or unknown (\<open>-1\<close>), the handler leaves the header as it
  was, unset on a fresh writer. \<^verbatim>\<open>Content-Type\<close> is the upstream's value whenever
  that is not empty, and is left as it was otherwise.
\<close>

theorem handleStream_length_and_type:
  assumes "Method r = ''GET''" and "held sem < capacity sem"
    and "Header_Get (Query r) ''url'' = u" and "u \<noteq> []"
    and "\<not> NewRequest_err W ''GET'' u"
    and "Do W \<lparr>Timeout = 0\<rparr> ''GET'' u = Inr resp"
    and "StatusCode resp < 400" and "ContentLength resp \<le> MaxSize cfg"
  shows "header (fst (handleStream W w r cfg sem)) ''Content-Length'' =
      (if ContentLength resp > 0 then Some [Sprintf_d (ContentLength resp)]
       else header w ''Content-Length'') \<and>
    (ContentLength resp > 0 \<longrightarrow>
       int (decimal_value (Sprintf_d (ContentLength resp))) = ContentLength resp) \<and>
    header (fst (handleStream W w r cfg sem)) ''Content-Type'' =
      (if Header_Get (RespHeader resp) ''Content-Type'' \<noteq> []
       then Some [Header_Get (RespHeader resp) ''Content-Type'']
       else header w ''Content-Type'')"
  using handleStream_relay_headers(1,2) [OF assms, of w]
  by (simp add: Sprintf_d_def decimal_value_decimal)

theorem handleStream_length_and_type_witness:
  "ContentLength (example_response 200 6) \<le> MaxSize (config 6) \<and>
   header (fst (handleStream (upstream (Inr (example_response 200 6))) NewRecorder
      (stream_request ''GET'' ''http://host/a.bin'') (config 6) free_sem)) ''Content-Length''
     = Some [''6''] \<and>
   header (fst (handleStream (upstream (Inr (example_response 200 6))) NewRecorder
      (stream_request ''GET'' ''http://host/a.bin'') (config 6) free_sem)) ''Content-Type''
     = Some [''text/plain''] \<and>
   header (fst (handleStream (upstream (Inr (example_response 200 (- 1)))) NewRecorder
      (stream_request ''GET'' ''http://host/a.bin'') (config 6) free_sem)) ''Content-Length''
     = None"
proof -
  have "header (fst (handleStream (upstream (Inr (example_response 200 n))) NewRecorder
        (stream_request ''GET'' ''http://host/a.bin'') (config 6) free_sem)) ''Content-Length'' =
      (if ContentLength (example_response 200 n) > 0
       then Some [Sprintf_d (ContentLength (example_response 200 n))]
       else header NewRecorder ''Content-Length'') \<and>
    (ContentLength (example_response 200 n) > 0 \<longrightarrow>
       int (decimal_value (Sprintf_d (ContentLength (example_response 200 n)))) =
       ContentLength (example_response 200 n)) \<and>
    header (fst (handleStream (upstream (Inr (example_response 200 n))) NewRecorder
        (stream_request ''GET'' ''http://host/a.bin'') (config 6) free_sem)) ''Content-Type'' =
      (if Header_Get (RespHeader (example_response 200 n)) ''Content-Type'' \<noteq> []
       then Some [Header_Get (RespHeader (example_response 200 n)) ''Content-Type'']
       else header NewRecorder ''Content-Type'')"
    if "n \<le> 6" for n
    by (rule handleStream_length_and_type [where u = "''http://host/a.bin''"])
      (use that in \<open>simp_all add: example_defs\<close>)
  from this [of 6] this [of "- 1"] show ?thesis
    by (simp add: example_sel example_response_def Header_Get_def Sprintf_d_def decimal.simps)
qed




subsection \<open>The rate limiter\<close>

lemma Cleanup_range_eq:
  "Cleanup_range visits m ip =
     (case m ip of
        None \<Rightarrow> None
      | Some l \<Rightarrow>
          if \<exists>now. (ip, now) \<in> set visits \<and> now - lastSeen l > 3 * Minute then None
          else Some l)"
proof (induction visits m rule: Cleanup_range.induct)
  case (1 m)
  then show ?case by (simp split: option.splits)
next
  case (2 ip' now' visits m)
  show ?case
  proof (cases "m ip'")
    case None
    with "2.IH"(1) show ?thesis
      by (auto split: option.splits)
  next
    case (Some e)
    show ?thesis
    proof (cases "now' - lastSeen e > 3 * Minute")
      case True
      with Some "2.IH"(2) show ?thesis
        by (auto simp: fun_upd_def split: option.splits)
    next
      case False
      with Some "2.IH"(3) show ?thesis
        by (auto split: option.splits)
    qed
  qed
qed

lemma IndexByte_None: "IndexByte s c = None \<longleftrightarrow> c \<notin> set s"
  by (induction s) auto

lemma LastIndexByte_None: "LastIndexByte s c = None \<longleftrightarrow> c \<notin> set s"
  by (induction s) (auto split: option.splits)

lemma LastIndexByte_append: "c \<notin> set t \<Longrightarrow> LastIndexByte (s @ c # t) c = Some (length s)"
  by (induction s) (auto simp: LastIndexByte_None [THEN iffD2] split: option.splits)

lemma IndexByte_append: "c \<notin> set s \<Longrightarrow> IndexByte (s @ c # t) c = Some (length s)"
  by (induction s) auto

lemma SplitHostPort_no_colon: "CHR '':'' \<notin> set s \<Longrightarrow> SplitHostPort s = Inl MissingPort"
  by (simp add: SplitHostPort_def LastIndexByte_None [THEN iffD2])

lemma SplitHostPort_host_port:
  assumes "set host \<inter> {CHR '':'', CHR ''['', CHR '']''} = {}"
    and "set port \<inter> {CHR '':'', CHR ''['', CHR '']''} = {}"
  shows "SplitHostPort (host @ CHR '':'' # port) = Inr (host, port)"
proof -
  have i: "LastIndexByte (host @ CHR '':'' # port) CHR '':'' = Some (length host)"
    using assms by (intro LastIndexByte_append) auto
  have nb: "take 1 (host @ CHR '':'' # port) \<noteq> ''[''"
    using assms by (cases host) auto
  have "IndexByte host CHR '':'' = None"
    "IndexByte (host @ CHR '':'' # port) CHR ''['' = None"
    "IndexByte (host @ CHR '':'' # port) CHR '']'' = None"
    using assms by (auto simp: IndexByte_None)
  with i nb show ?thesis
    by (simp add: SplitHostPort_def Let_def)
qed

lemma SplitHostPort_bracket_host_port:
  assumes "set host \<inter> {CHR ''['', CHR '']''} = {}"
    and "set port \<inter> {CHR '':'', CHR ''['', CHR '']''} = {}"
  shows "SplitHostPort (CHR ''['' # host @ CHR '']'' # CHR '':'' # port) = Inr (host, port)"
proof -
  let ?s = "CHR ''['' # host @ CHR '']'' # CHR '':'' # port"
  have "LastIndexByte ((CHR ''['' # host @ [CHR '']'']) @ CHR '':'' # port) CHR '':'' =
      Some (length (CHR ''['' # host @ [CHR '']'']))"
    using assms by (intro LastIndexByte_append) auto
  then have i: "LastIndexByte ?s CHR '':'' = Some (length host + 2)"
    by simp
  have "IndexByte ((CHR ''['' # host) @ CHR '']'' # CHR '':'' # port) CHR '']'' =
      Some (length (CHR ''['' # host))"
    using assms by (intro IndexByte_append) auto
  then have e: "IndexByte ?s CHR '']'' = Some (length host + 1)"
    by simp
  have "IndexByte (drop 1 ?s) CHR ''['' = None"
    "IndexByte (drop (length host + 1 + 1) ?s) CHR '']'' = None"
    using assms by (auto simp: IndexByte_None)
  moreover have "drop 1 (take (length host + 1) ?s) = host"
    "drop (length host + 2 + 1) ?s = port"
    by simp_all
  ultimately show ?thesis
    using i e by (simp add: SplitHostPort_def Let_def)
qed

lemma clientIP_eq:
  "clientIP r =
     (let ip = (if Header_Get (ReqHeader r) ''X-Forwarded-For'' \<noteq> []
                then Header_Get (ReqHeader r) ''X-Forwarded-For'' else RemoteAddr r)
      in case SplitHostPort ip of Inr (host, port) \<Rightarrow> host | Inl e \<Rightarrow> ip)"
  by (auto simp: clientIP_def Let_def Contains_def SplitHostPort_no_colon split: sum.splits)

lemma RateLimitMiddleware_key:
  assumes "RateLimitMiddleware lib now next w r (i, s) = (w', (i', s'))"
  shows "\<exists>l. ips i' (clientIP r) = Some l \<and> lastSeen l = now"
    and "k \<noteq> clientIP r \<Longrightarrow> ips i' k = ips i k"
  using assms
  by (auto simp: RateLimitMiddleware_def GetLimiter_def Let_def split: prod.splits if_splits option.splits)

text \<open>
  C4. A sweep visits every entry of the table and reads the clock at each one, never
  before the sweep started. After the sweep, every entry that was more than three
  minutes (180 seconds) old when the sweep started is gone. Every entry that is still
  there was in the table before and was at most three minutes old when the sweep looked
  at it, and no such entry is lost. In particular a client whose last request, at time
  \<open>t\<close>, lies more than three minutes before the sweep is absent after it.
\<close>

theorem Cleanup_evicts_stale:
  assumes "dom (ips i) \<subseteq> fst ` set visits"
    and "\<forall>(ip, now) \<in> set visits. start \<le> now"
  shows "(\<forall>ip l. ips i ip = Some l \<and> start - lastSeen l > 3 * Minute \<longrightarrow>
            ips (Cleanup visits i) ip = None) \<and>
         (\<forall>ip l. ips (Cleanup visits i) ip = Some l \<longrightarrow>
            ips i ip = Some l \<and> (\<exists>now. (ip, now) \<in> set visits \<and> now - lastSeen l \<le> 3 * Minute)) \<and>
         (\<forall>ip l. ips i ip = Some l \<and>
            (\<forall>now. (ip, now) \<in> set visits \<longrightarrow> now - lastSeen l \<le> 3 * Minute) \<longrightarrow>
            ips (Cleanup visits i) ip = Some l) \<and>
         (\<forall>ip t. ip \<in> dom (ips i) \<and> start - t > 3 * Minute \<longrightarrow>
            ips (Cleanup visits (snd (GetLimiter lib t i ip))) ip = None) \<and>
         3 * Minute = 180 * Second"
proof (intro conjI allI impI)
  fix ip l
  assume a: "ips i ip = Some l \<and> start - lastSeen l > 3 * Minute"
  then have "ip \<in> fst ` set visits"
    using assms(1) by auto
  then obtain now where now: "(ip, now) \<in> set visits"
    by auto
  with assms(2) have "start \<le> now"
    by auto
  with a now have "\<exists>now. (ip, now) \<in> set visits \<and> now - lastSeen l > 3 * Minute"
    by (intro exI [of _ now]) simp
  with a show "ips (Cleanup visits i) ip = None"
    by (simp add: Cleanup_def Cleanup_range_eq)
next
  fix ip l
  assume a: "ips (Cleanup visits i) ip = Some l"
  then show "ips i ip = Some l"
    by (auto simp: Cleanup_def Cleanup_range_eq split: option.splits if_splits)
  then have "ip \<in> fst ` set visits"
    using assms(1) by auto
  then obtain now where "(ip, now) \<in> set visits"
    by auto
  with a show "\<exists>now. (ip, now) \<in> set visits \<and> now - lastSeen l \<le> 3 * Minute"
    by (intro exI [of _ now])
      (auto simp: Cleanup_def Cleanup_range_eq not_less split: option.splits if_splits)
next
  fix ip l
  assume "ips i ip = Some l \<and>
    (\<forall>now. (ip, now) \<in> set visits \<longrightarrow> now - lastSeen l \<le> 3 * Minute)"
  then show "ips (Cleanup visits i) ip = Some l"
    by (auto simp: Cleanup_def Cleanup_range_eq)
next
  fix ip t
  assume a: "ip \<in> dom (ips i) \<and> start - t > 3 * Minute"
  then have "ip \<in> fst ` set visits"
    using assms(1) by auto
  then obtain now where now: "(ip, now) \<in> set visits"
    by auto
  with assms(2) have "start \<le> now"
    by auto
  with a now have "\<exists>now. (ip, now) \<in> set visits \<and> now - t > 3 * Minute"
    by (intro exI [of _ now]) simp
  then show "ips (Cleanup visits (snd (GetLimiter lib t i ip))) ip = None"
    by (simp add: Cleanup_def Cleanup_range_eq GetLimiter_def Let_def)
next
  show "3 * Minute = 180 * Second"
    by (simp add: Minute_def Second_def)
qed

theorem Cleanup_evicts_stale_witness:
  "ips (Cleanup example_visits example_limiter) ''10.0.0.1'' = None \<and>
   ips (Cleanup example_visits example_limiter) ''10.0.0.2'' =
     Some \<lparr>limiter = 5, lastSeen = 100 * Second\<rparr> \<and>
   ips (Cleanup example_visits (snd (GetLimiter example_lib (15 * Second) example_limiter
     ''10.0.0.2''))) ''10.0.0.2'' = None"
proof -
  have cover: "dom (ips example_limiter) \<subseteq> fst ` set example_visits"
    by (simp add: example_limiter_def example_visits_def)
  have start: "\<forall>(ip, now) \<in> set example_visits. 200 * Second \<le> now"
    by (simp add: example_visits_def)
  note sweep = Cleanup_evicts_stale [OF cover start, of example_lib]
  have "ips example_limiter ''10.0.0.1'' = Some \<lparr>limiter = 5, lastSeen = 10 * Second\<rparr> \<and>
      200 * Second - lastSeen \<lparr>limiter = 5 :: nat, lastSeen = 10 * Second\<rparr> > 3 * Minute"
    by (simp add: example_limiter_def Second_def Minute_def)
  with sweep have 1: "ips (Cleanup example_visits example_limiter) ''10.0.0.1'' = None"
    by blast
  have "ips example_limiter ''10.0.0.2'' = Some \<lparr>limiter = 5, lastSeen = 100 * Second\<rparr> \<and>
      (\<forall>now. (''10.0.0.2'', now) \<in> set example_visits \<longrightarrow>
         now - lastSeen \<lparr>limiter = 5 :: nat, lastSeen = 100 * Second\<rparr> \<le> 3 * Minute)"
    by (simp add: example_limiter_def example_visits_def Second_def Minute_def)
  with sweep have 2: "ips (Cleanup example_visits example_limiter) ''10.0.0.2'' =
      Some \<lparr>limiter = 5, lastSeen = 100 * Second\<rparr>"
    by blast
  have "''10.0.0.2'' \<in> dom (ips example_limiter) \<and> 200 * Second - 15 * Second > 3 * Minute"
    by (simp add: example_limiter_def Second_def Minute_def)
  with sweep have 3: "ips (Cleanup example_visits (snd (GetLimiter example_lib (15 * Second)
      example_limiter ''10.0.0.2''))) ''10.0.0.2'' = None"
    by blast
  from 1 2 3 show ?thesis
    by simp
qed

text \<open>
  C5, as stated, fails for a forwarded-for value that carries a port: the key is the
  host part, not the raw value. The table has no entry under the raw value after the
  request, and one under the host.
\<close>

theorem forwarded_port_counterexample:
  "Header_Get (ReqHeader (forwarded_request ''203.0.113.7:4711'')) ''X-Forwarded-For'' =
     ''203.0.113.7:4711'' \<and>
   clientIP (forwarded_request ''203.0.113.7:4711'') = ''203.0.113.7'' \<and>
   ips (fst (snd (RateLimitMiddleware example_lib (300 * Second) (\<lambda>w r s. (w, s)) NewRecorder
     (forwarded_request ''203.0.113.7:4711'') (example_limiter, ())))) ''203.0.113.7:4711'' = None \<and>
   ips (fst (snd (RateLimitMiddleware example_lib (300 * Second) (\<lambda>w r s. (w, s)) NewRecorder
     (forwarded_request ''203.0.113.7:4711'') (example_limiter, ())))) ''203.0.113.7'' =
     Some \<lparr>limiter = 4, lastSeen = 300 * Second\<rparr>"
  by (simp add: forwarded_request_def Header_Get_def clientIP_def Contains_def
      SplitHostPort_def Let_def RateLimitMiddleware_def GetLimiter_def example_lib_def
      example_limiter_def)

text \<open>
  C5, amended. The middleware looks up, and refreshes, exactly one entry of the
  limiter table, the one under the client key. The key comes from the forwarded-for
  header when that is not empty and from the peer address otherwise; in both cases,
  when the string parses as host and port (\<^verbatim>\<open>net.SplitHostPort\<close>) the key is the
  host, and when it does not the key is the string as it is. A string without a colon
  never parses, so a bare address is used raw; \<open>host:port\<close> and \<open>[host]:port\<close> parse
  to \<open>host\<close>.
\<close>

theorem RateLimitMiddleware_client_key:
  "(\<exists>l. ips (fst (snd (RateLimitMiddleware lib now handler w r (i, s)))) (clientIP r) = Some l \<and>
        lastSeen l = now) \<and>
   (\<forall>k. k \<noteq> clientIP r \<longrightarrow>
        ips (fst (snd (RateLimitMiddleware lib now handler w r (i, s)))) k = ips i k) \<and>
   (Header_Get (ReqHeader r) ''X-Forwarded-For'' \<noteq> [] \<and>
    SplitHostPort (Header_Get (ReqHeader r) ''X-Forwarded-For'') = Inr (host, port) \<longrightarrow>
      clientIP r = host) \<and>
   (Header_Get (ReqHeader r) ''X-Forwarded-For'' \<noteq> [] \<and>
    SplitHostPort (Header_Get (ReqHeader r) ''X-Forwarded-For'') = Inl e \<longrightarrow>
      clientIP r = Header_Get (ReqHeader r) ''X-Forwarded-For'') \<and>
   (Header_Get (ReqHeader r) ''X-Forwarded-For'' = [] \<and>
    SplitHostPort (RemoteAddr r) = Inr (host, port) \<longrightarrow>
      clientIP r = host) \<and>
   (Header_Get (ReqHeader r) ''X-Forwarded-For'' = [] \<and> SplitHostPort (RemoteAddr r) = Inl e \<longrightarrow>
      clientIP r = RemoteAddr r) \<and>
   (CHR '':'' \<notin> set a \<longrightarrow> SplitHostPort a = Inl MissingPort) \<and>
   (set h \<inter> {CHR '':'', CHR ''['', CHR '']''} = {} \<and>
    set p \<inter> {CHR '':'', CHR ''['', CHR '']''} = {} \<longrightarrow>
      SplitHostPort (h @ CHR '':'' # p) = Inr (h, p)) \<and>
   (set h \<inter> {CHR ''['', CHR '']''} = {} \<and>
    set p \<inter> {CHR '':'', CHR ''['', CHR '']''} = {} \<longrightarrow>
      SplitHostPort (CHR ''['' # h @ CHR '']'' # CHR '':'' # p) = Inr (h, p))"
proof -
  obtain w' i' s' where res: "RateLimitMiddleware lib now handler w r (i, s) = (w', (i', s'))"
    by (metis prod.exhaust)
  note key = RateLimitMiddleware_key [OF res]
  show ?thesis
    using key SplitHostPort_no_colon [of a] SplitHostPort_host_port [of h p]
      SplitHostPort_bracket_host_port [of h p]
    by (simp add: res clientIP_eq Let_def)
qed

theorem RateLimitMiddleware_client_key_witness:
  "clientIP (stream_request ''GET'' ''http://host/a.bin'') = ''10.0.0.1'' \<and>
   map_option lastSeen (ips (fst (snd (RateLimitMiddleware example_lib (300 * Second)
     (\<lambda>w r s. (w, s)) NewRecorder (stream_request ''GET'' ''http://host/a.bin'')
     (example_limiter, ())))) ''10.0.0.1'') = Some (300 * Second) \<and>
   clientIP (forwarded_request ''198.51.100.4'') = ''198.51.100.4'' \<and>
   clientIP (forwarded_request ''[2001:db8::1]:443'') = ''2001:db8::1''"
proof -
  note k1 = RateLimitMiddleware_client_key [where r = "stream_request ''GET'' ''http://host/a.bin''"
      and lib = example_lib and now = "300 * Second" and handler = "\<lambda>w r s. (w, s)"
      and w = NewRecorder and i = example_limiter and s = "()" and e = MissingPort
      and a = "[]" and h = "''10.0.0.1''" and p = "''5000''"
      and host = "''10.0.0.1''" and port = "''5000''"]
  note k2 = RateLimitMiddleware_client_key [where r = "forwarded_request ''198.51.100.4''"
      and lib = example_lib and now = "300 * Second" and handler = "\<lambda>w r s. (w, s)"
      and w = NewRecorder and i = example_limiter and s = "()" and e = MissingPort
      and a = "''198.51.100.4''" and h = "[]" and p = "[]" and host = "[]" and port = "[]"]
  note k3 = RateLimitMiddleware_client_key [where r = "forwarded_request ''[2001:db8::1]:443''"
      and lib = example_lib and now = "300 * Second" and handler = "\<lambda>w r s. (w, s)"
      and w = NewRecorder and i = example_limiter and s = "()" and e = MissingPort
      and a = "[]" and h = "''2001:db8::1''" and p = "''443''"
      and host = "''2001:db8::1''" and port = "''443''"]
  from k1 have "SplitHostPort ''10.0.0.1:5000'' = Inr (''10.0.0.1'', ''5000'')"
    by simp
  with k1 have 1: "clientIP (stream_request ''GET'' ''http://host/a.bin'') = ''10.0.0.1''"
    by (simp add: stream_request_def Header_Get_def)
  from k1 have "\<exists>l. ips (fst (snd (RateLimitMiddleware example_lib (300 * Second)
      (\<lambda>w r s. (w, s)) NewRecorder (stream_request ''GET'' ''http://host/a.bin'')
      (example_limiter, ())))) (clientIP (stream_request ''GET'' ''http://host/a.bin'')) = Some l \<and>
      lastSeen l = 300 * Second"
    by (rule conjunct1)
  with 1 have 2: "map_option lastSeen (ips (fst (snd (RateLimitMiddleware example_lib
      (300 * Second) (\<lambda>w r s. (w, s)) NewRecorder (stream_request ''GET'' ''http://host/a.bin'')
      (example_limiter, ())))) ''10.0.0.1'') = Some (300 * Second)"
    by auto
  from k2 have "SplitHostPort ''198.51.100.4'' = Inl MissingPort"
    by simp
  with k2 have 3: "clientIP (forwarded_request ''198.51.100.4'') = ''198.51.100.4''"
    by (simp add: forwarded_request_def Header_Get_def)
  from k3 have "SplitHostPort ''[2001:db8::1]:443'' = Inr (''2001:db8::1'', ''443'')"
    by simp
  with k3 have 4: "clientIP (forwarded_request ''[2001:db8::1]:443'') = ''2001:db8::1''"
    by (simp add: forwarded_request_def Header_Get_def)
  from 1 2 3 4 show ?thesis
    by simp
qed

subsection \<open>Admission\<close>

text \<open>
  C3. With an empty secret the middleware is the downstream handler itself, for every
  request. With a secret set, a request whose \<^verbatim>\<open>X-Grab-Token\<close> header equals the
  secret is handed to the downstream handler unchanged; any other request (another
  value, or no header, which reads as the empty string) gets the 401 response of
  \<^verbatim>\<open>http.Error\<close>, and that outcome is the same whatever the downstream handler is
  and leaves the handlers' state untouched: the downstream handler did not run. The
  last conjunct probes the middleware with a downstream handler that only raises a
  flag: the flag is raised exactly when the secret is empty or the token equals it.
\<close>

theorem AuthMiddleware_admits_iff_token:
  "(secret = [] \<longrightarrow> AuthMiddleware next secret w r s = next w r s) \<and>
   (secret \<noteq> [] \<and> Header_Get (ReqHeader r) ''X-Grab-Token'' = secret \<longrightarrow>
      AuthMiddleware next secret w r s = next w r s) \<and>
   (secret \<noteq> [] \<and> Header_Get (ReqHeader r) ''X-Grab-Token'' \<noteq> secret \<longrightarrow>
      AuthMiddleware next secret w r s = (http_Error w ''Unauthorized'' 401, s) \<and>
      AuthMiddleware next secret w r s = AuthMiddleware next' secret w r s \<and>
      (status w = None \<longrightarrow> status (fst (AuthMiddleware next secret w r s)) = Some 401)) \<and>
   (snd (AuthMiddleware (\<lambda>w r ran. (w, True)) secret w r False) \<longleftrightarrow>
      secret = [] \<or> Header_Get (ReqHeader r) ''X-Grab-Token'' = secret)"
  by (simp add: AuthMiddleware_def Let_def status_http_Error)

theorem AuthMiddleware_admits_iff_token_witness:
  "AuthMiddleware (\<lambda>w r n. (w, Suc n)) ''mysecret'' NewRecorder
      \<lparr>Method = ''GET'', Query = Map.empty,
       ReqHeader = [''X-Grab-Token'' \<mapsto> [''mysecret'']], RemoteAddr = ''10.0.0.1:5000''\<rparr> 0
     = (NewRecorder, 1) \<and>
   status (fst (AuthMiddleware (\<lambda>w r n. (w, Suc n)) ''mysecret'' NewRecorder
      \<lparr>Method = ''GET'', Query = Map.empty,
       ReqHeader = [''X-Grab-Token'' \<mapsto> [''wrong'']], RemoteAddr = ''10.0.0.1:5000''\<rparr> 0))
     = Some 401 \<and>
   snd (AuthMiddleware (\<lambda>w r n. (w, Suc n)) ''mysecret'' NewRecorder
      \<lparr>Method = ''GET'', Query = Map.empty,
       ReqHeader = Map.empty, RemoteAddr = ''10.0.0.1:5000''\<rparr> 0) = 0 \<and>
   AuthMiddleware (\<lambda>w r n. (w, Suc n)) [] NewRecorder
      \<lparr>Method = ''GET'', Query = Map.empty,
       ReqHeader = Map.empty, RemoteAddr = ''10.0.0.1:5000''\<rparr> 0
     = (NewRecorder, 1)"
  using
    AuthMiddleware_admits_iff_token [of "''mysecret''" "\<lambda>w r n. (w, Suc n)" NewRecorder
      "\<lparr>Method = ''GET'', Query = Map.empty,
        ReqHeader = [''X-Grab-Token'' \<mapsto> [''mysecret'']], RemoteAddr = ''10.0.0.1:5000''\<rparr>" 0]
    AuthMiddleware_admits_iff_token [of "''mysecret''" "\<lambda>w r n. (w, Suc n)" NewRecorder
      "\<lparr>Method = ''GET'', Query = Map.empty,
        ReqHeader = [''X-Grab-Token'' \<mapsto> [''wrong'']], RemoteAddr = ''10.0.0.1:5000''\<rparr>" 0]
    AuthMiddleware_admits_iff_token [of "''mysecret''" "\<lambda>w r n. (w, Suc n)" NewRecorder
      "\<lparr>Method = ''GET'', Query = Map.empty,
        ReqHeader = Map.empty, RemoteAddr = ''10.0.0.1:5000''\<rparr>" 0]
    AuthMiddleware_admits_iff_token [of "[]" "\<lambda>w r n. (w, Suc n)" NewRecorder
      "\<lparr>Method = ''GET'', Query = Map.empty,
        ReqHeader = Map.empty, RemoteAddr = ''10.0.0.1:5000''\<rparr>" 0]
  by (simp add: Header_Get_def NewRecorder_def status_http_Error)

end
